theory Spec2Isabelle
  imports Main "HOL-Library.AList" "HOL-Library.Sublist"
begin

section \<open>The HTML output module of antiSMASH (\<^verbatim>\<open>antismash/outputs/html/__init__.py\<close>)\<close>

subsection \<open>Configuration\<close>

text \<open>
  The functions modelled here read two fields of the configuration object,
  \<^verbatim>\<open>html_enabled\<close> and \<^verbatim>\<open>minimal\<close>. The record is extensible: every other option of
  the program (\<^verbatim>\<open>output_dir\<close>, \<^verbatim>\<open>taxon\<close>, ...) lives in its \<open>more\<close> part. A path is
  the list of its components.
\<close>

type_synonym name = string
type_synonym path = "name list"

record config =
  html_enabled :: bool
  minimal :: bool

text \<open>
  \<^verbatim>\<open>def is_enabled(options): return options.html_enabled or not options.minimal\<close>
\<close>

definition is_enabled :: "'a config_scheme \<Rightarrow> bool" where
  "is_enabled options = (html_enabled options \<or> \<not> minimal options)"

subsection \<open>The file system\<close>

text \<open>
  The module works on directory trees through \<^verbatim>\<open>os\<close>, \<^verbatim>\<open>shutil\<close> and \<^verbatim>\<open>glob\<close>. A node
  of a tree is a regular file (permission bits, content) or a directory (permission bits,
  entries by name, in listing order). A lookup takes the first entry of a name, and every
  operation below keeps at most one entry per name. Symbolic links are not modelled, and
  the permission bits are data only: no operation is refused for want of a permission
  (the process owns the trees it works on).
\<close>

type_synonym mode = nat

datatype node = File mode string | Dir mode "(name \<times> node) list"

datatype os_error =
    FileNotFoundError | FileExistsError | NotADirectoryError | IsADirectoryError
  | OSError | AssertionError | CompileError

unbundle bit_operations_syntax

definition S_IRUSR :: mode where "S_IRUSR = 256"
definition S_IWUSR :: mode where "S_IWUSR = 128"
definition S_IXUSR :: mode where "S_IXUSR = 64"

text \<open>The permission bits of a directory or file that a call creates (0o755 and 0o644).\<close>

definition default_dir_mode :: mode where "default_dir_mode = 493"
definition default_file_mode :: mode where "default_file_mode = 420"

fun is_dir :: "node \<Rightarrow> bool" where
  "is_dir (Dir m es) = True"
| "is_dir (File m c) = False"

fun lookup :: "node \<Rightarrow> path \<Rightarrow> node option" where
  "lookup n [] = Some n"
| "lookup (File m c) (a # p) = None"
| "lookup (Dir m es) (a # p) = (case map_of es a of None \<Rightarrow> None | Some ch \<Rightarrow> lookup ch p)"

text \<open>\<^verbatim>\<open>os.path.exists\<close> and \<^verbatim>\<open>os.path.isdir\<close>.\<close>

definition path_exists :: "node \<Rightarrow> path \<Rightarrow> bool" where
  "path_exists fs p = (lookup fs p \<noteq> None)"

definition path_isdir :: "node \<Rightarrow> path \<Rightarrow> bool" where
  "path_isdir fs p = (case lookup fs p of Some n \<Rightarrow> is_dir n | None \<Rightarrow> False)"

text \<open>
  \<^verbatim>\<open>shutil.rmtree(p)\<close>: \<open>remove\<close> takes the entry at \<open>p\<close> out of its parent directory;
  \<open>rmtree\<close> raises where Python does (nothing at \<open>p\<close>, a regular file at \<open>p\<close>). The root
  of the modelled tree cannot be removed.
\<close>

fun remove :: "path \<Rightarrow> node \<Rightarrow> node" where
  "remove [] n = n"
| "remove (a # p) (File m c) = File m c"
| "remove [a] (Dir m es) = Dir m (AList.delete a es)"
| "remove (a # b # p) (Dir m es) =
     (case map_of es a of
        None \<Rightarrow> Dir m es
      | Some ch \<Rightarrow> Dir m (AList.update a (remove (b # p) ch) es))"

definition rmtree :: "path \<Rightarrow> node \<Rightarrow> os_error + node" where
  "rmtree p fs =
     (case lookup fs p of
        None \<Rightarrow> Inl FileNotFoundError
      | Some (File m c) \<Rightarrow> Inl NotADirectoryError
      | Some (Dir m es) \<Rightarrow> if p = [] then Inl OSError else Inr (remove p fs))"

text \<open>
  \<open>graft p n fs\<close> puts the node \<open>n\<close> at the path \<open>p\<close>, which must not exist, and creates
  the missing directories above it, as \<^verbatim>\<open>os.makedirs\<close> does: \<^verbatim>\<open>FileExistsError\<close> when
  \<open>p\<close> exists, \<^verbatim>\<open>NotADirectoryError\<close> when a regular file is in the way.
\<close>

fun mkchain :: "path \<Rightarrow> node \<Rightarrow> node" where
  "mkchain [] n = n"
| "mkchain (a # p) n = Dir default_dir_mode [(a, mkchain p n)]"

fun graft :: "path \<Rightarrow> node \<Rightarrow> node \<Rightarrow> os_error + node" where
  "graft [] n fs = Inl FileExistsError"
| "graft (a # p) n (File m c) = Inl NotADirectoryError"
| "graft (a # p) n (Dir m es) =
     (case map_of es a of
        None \<Rightarrow> Inr (Dir m (es @ [(a, mkchain p n)]))
      | Some ch \<Rightarrow>
          (case graft p n ch of
             Inl e \<Rightarrow> Inl e
           | Inr ch' \<Rightarrow> Inr (Dir m (AList.update a ch' es))))"

definition makedirs :: "path \<Rightarrow> node \<Rightarrow> os_error + node" where
  "makedirs p fs = graft p (Dir default_dir_mode []) fs"

text \<open>
  \<^verbatim>\<open>shutil.copytree(src, dst)\<close> with the source already read (\<open>None\<close> when there is nothing
  at \<^verbatim>\<open>src\<close>): the source must be a directory, the destination must not exist, and the
  copy keeps the permission bits of every node (\<^verbatim>\<open>copy2\<close>, \<^verbatim>\<open>copystat\<close>).
\<close>

definition copytree :: "node option \<Rightarrow> path \<Rightarrow> node \<Rightarrow> os_error + node" where
  "copytree src dst fs =
     (case src of
        None \<Rightarrow> Inl FileNotFoundError
      | Some (File m c) \<Rightarrow> Inl NotADirectoryError
      | Some (Dir m es) \<Rightarrow> graft dst (Dir m es) fs)"

text \<open>
  Writing a regular file at a path whose parent directory exists: the file is created, or
  the regular file there is replaced; a directory there raises \<^verbatim>\<open>IsADirectoryError\<close>.
\<close>

fun write_file :: "path \<Rightarrow> mode \<Rightarrow> string \<Rightarrow> node \<Rightarrow> os_error + node" where
  "write_file [] fm c (File m' c') = Inr (File fm c)"
| "write_file [] fm c (Dir m es) = Inl IsADirectoryError"
| "write_file (a # p) fm c (File m' c') = Inl NotADirectoryError"
| "write_file (a # p) fm c (Dir m es) =
     (case map_of es a of
        None \<Rightarrow> if p = [] then Inr (Dir m (es @ [(a, File fm c)])) else Inl FileNotFoundError
      | Some ch \<Rightarrow>
          (case write_file p fm c ch of
             Inl e \<Rightarrow> Inl e
           | Inr ch' \<Rightarrow> Inr (Dir m (AList.update a ch' es))))"

text \<open>
  \<^verbatim>\<open>shutil.copy2(src, dst)\<close> for a source named \<open>a\<close>: into the directory \<open>dst\<close> under the
  source's own name when \<open>dst\<close> is a directory, to the path \<open>dst\<close> itself otherwise.
\<close>

definition copy2 :: "name \<Rightarrow> node \<Rightarrow> path \<Rightarrow> node \<Rightarrow> os_error + node" where
  "copy2 a src dst fs =
     (case src of
        Dir m es \<Rightarrow> Inl IsADirectoryError
      | File fm c \<Rightarrow>
          if path_isdir fs dst then write_file (dst @ [a]) fm c fs else write_file dst fm c fs)"

text \<open>\<^verbatim>\<open>os.chmod(p, mode)\<close>.\<close>

fun set_mode :: "mode \<Rightarrow> node \<Rightarrow> node" where
  "set_mode m (File m' c) = File m c"
| "set_mode m (Dir m' es) = Dir m es"

fun chmod :: "path \<Rightarrow> mode \<Rightarrow> node \<Rightarrow> os_error + node" where
  "chmod [] m n = Inr (set_mode m n)"
| "chmod (a # p) m (File m' c) = Inl NotADirectoryError"
| "chmod (a # p) m (Dir m' es) =
     (case map_of es a of
        None \<Rightarrow> Inl FileNotFoundError
      | Some ch \<Rightarrow>
          (case chmod p m ch of
             Inl e \<Rightarrow> Inl e
           | Inr ch' \<Rightarrow> Inr (Dir m' (AList.update a ch' es))))"

text \<open>
  The loop
  \<^verbatim>\<open>for root, dirs, _files in os.walk(top): for subdir in dirs: os.chmod(join(root, subdir), mode)\<close>.
  \<^verbatim>\<open>os.walk\<close> goes top-down and lists a directory only after the loop body has run for its
  parent, so every directory strictly below \<open>top\<close> is reached and gets the mode; files and
  \<open>top\<close> itself are left alone. \<open>chmod_dirs\<close> is the effect on a subdirectory (itself and
  all directories below it), \<open>walk_subdirs\<close> the effect on the node at \<open>top\<close>. \<^verbatim>\<open>os.walk\<close>
  ignores a \<open>top\<close> that is missing or no directory.
\<close>

primrec chmod_dirs :: "mode \<Rightarrow> node \<Rightarrow> node" where
  "chmod_dirs m (File m' c) = File m' c"
| "chmod_dirs m (Dir m' es) = Dir m (map (map_prod id (chmod_dirs m)) es)"

fun walk_subdirs :: "mode \<Rightarrow> node \<Rightarrow> node" where
  "walk_subdirs m (File m' c) = File m' c"
| "walk_subdirs m (Dir m' es) = Dir m' (map (map_prod id (chmod_dirs m)) es)"

fun walk_chmod :: "path \<Rightarrow> mode \<Rightarrow> node \<Rightarrow> node" where
  "walk_chmod [] m n = walk_subdirs m n"
| "walk_chmod (a # p) m (File m' c) = File m' c"
| "walk_chmod (a # p) m (Dir m' es) =
     (case map_of es a of
        None \<Rightarrow> Dir m' es
      | Some ch \<Rightarrow> Dir m' (AList.update a (walk_chmod p m ch) es))"

subsection \<open>\<^verbatim>\<open>copy_template_dir\<close>\<close>

text \<open>
  \<^verbatim>\<open>glob.glob(path.get_full_path(__file__, template, pattern))\<close>: the entries of the
  template directory of the package whose names match the pattern, in listing order.
  \<open>pkg\<close> is the directory of the module's own file; it is read only and outside the
  output directory, so it is a tree of its own. The matching of a name against a pattern
  (\<^verbatim>\<open>fnmatch\<close>, with the rule that a wildcard matches no leading dot) is a parameter;
  the pattern names entries of the template directory itself (it has no directory
  separator).
\<close>

definition glob_template ::
  "(name \<Rightarrow> string \<Rightarrow> bool) \<Rightarrow> node \<Rightarrow> path \<Rightarrow> string \<Rightarrow> (name \<times> node) list" where
  "glob_template fnmatch pkg template pattern =
     (case lookup pkg template of
        Some (Dir m es) \<Rightarrow> filter (\<lambda>(a, n). fnmatch a pattern) es
      | _ \<Rightarrow> [])"

text \<open>
  The loop over the matches:
  \<^verbatim>\<open>if os.path.isdir(filename): shutil.copytree(filename, target_dir)
  else: shutil.copy2(filename, target_dir)\<close>
\<close>

fun copy_matches :: "path \<Rightarrow> (name \<times> node) list \<Rightarrow> node \<Rightarrow> os_error + node" where
  "copy_matches target_dir [] fs = Inr fs"
| "copy_matches target_dir ((a, n) # rest) fs =
     (case (if is_dir n then copytree (Some n) target_dir fs else copy2 a n target_dir fs) of
        Inl e \<Rightarrow> Inl e
      | Inr fs' \<Rightarrow> copy_matches target_dir rest fs')"

text \<open>
  \<^verbatim>\<open>copy_template_dir(template, output_dir, pattern=None)\<close>, lines 130 to 163. The
  result is the file system after the call, or the exception that ends it. \<open>template\<close> is
  a relative path, so \<^verbatim>\<open>os.path.join(output_dir, template)\<close> appends it; an empty or
  absent pattern takes the \<^verbatim>\<open>else\<close> branch.
\<close>

definition owner_rwx :: mode where
  "owner_rwx = S_IRUSR OR S_IWUSR OR S_IXUSR"

definition copy_template_dir ::
  "(name \<Rightarrow> string \<Rightarrow> bool) \<Rightarrow> node \<Rightarrow> path \<Rightarrow> path \<Rightarrow> string option \<Rightarrow> node
   \<Rightarrow> os_error + node" where
  "copy_template_dir fnmatch pkg template output_dir pattern fs =
     (let target_dir = output_dir @ template in
      case (if path_exists fs target_dir then rmtree target_dir fs else Inr fs) of
        Inl e \<Rightarrow> Inl e
      | Inr fs1 \<Rightarrow>
          (case (if pattern \<noteq> None \<and> pattern \<noteq> Some []
                 then (case makedirs target_dir fs1 of
                         Inl e \<Rightarrow> Inl e
                       | Inr fs2 \<Rightarrow>
                           copy_matches target_dir
                             (glob_template fnmatch pkg template (the pattern)) fs2)
                 else copytree (lookup pkg template) target_dir fs1) of
             Inl e \<Rightarrow> Inl e
           | Inr fs3 \<Rightarrow>
               (case chmod output_dir owner_rwx fs3 of
                  Inl e \<Rightarrow> Inl e
                | Inr fs4 \<Rightarrow> Inr (walk_chmod output_dir owner_rwx fs4))))"

subsection \<open>\<^verbatim>\<open>prepare_data\<close> and \<^verbatim>\<open>check_prereqs\<close>\<close>

text \<open>
  \<^verbatim>\<open>prepare_data\<close> (lines 59 to 76) works in the \<^verbatim>\<open>css\<close> directory of the package
  (\<^verbatim>\<open>path.changed_directory(path.get_full_path(__file__, "css"))\<close>): it asks
  \<^verbatim>\<open>path.is_outdated\<close> whether the three built stylesheets are older than the
  \<^verbatim>\<open>*.scss\<close> sources, and if so compiles \<^verbatim>\<open><flavour>.scss\<close> and writes the result to
  \<^verbatim>\<open><flavour>.css\<close> for each flavour, in turn. It always returns the empty list.

  The state is the package tree; the result pairs the tree after the call with the
  returned list or the exception raised, so that the files written before an exception
  stay written. Two collaborators are not among the sources and are parameters:
  \<open>is_outdated built sources fs\<close> is the answer of \<^verbatim>\<open>antismash.common.path.is_outdated\<close>
  in the state \<open>fs\<close>, and \<open>sass_compile fs source\<close> is the output of \<^verbatim>\<open>sass.compile\<close>
  on the file \<open>source\<close> (or the exception it raises). The argument \<^verbatim>\<open>_logging_only\<close>
  is never read by the function and is left out.
\<close>

definition flavours :: "string list" where
  "flavours = [''bacteria'', ''fungi'', ''plants'']"

text \<open>
  \<^verbatim>\<open>glob.glob("*.scss")\<close> in a directory: the names that end in \<^verbatim>\<open>.scss\<close>, without
  the hidden ones (a leading dot is matched by no wildcard).
\<close>

definition glob_scss :: "node \<Rightarrow> name list" where
  "glob_scss d =
     (case d of
        Dir m es \<Rightarrow> filter (\<lambda>a. suffix ''.scss'' a \<and> \<not> prefix ''.'' a) (map fst es)
      | File m c \<Rightarrow> [])"

text \<open>
  \<^verbatim>\<open>with open(target, "w") as out: out.write(result)\<close>: the file is created with the
  default permission bits, or the regular file there is truncated and keeps its own.
\<close>

definition open_write :: "path \<Rightarrow> string \<Rightarrow> node \<Rightarrow> os_error + node" where
  "open_write p c fs =
     write_file p (case lookup fs p of Some (File m c') \<Rightarrow> m | _ \<Rightarrow> default_file_mode) c fs"

text \<open>
  The loop over the flavours, with the \<^verbatim>\<open>assert os.path.exists(source)\<close>. Relative file
  names are resolved against \<open>cwd\<close>.
\<close>

fun build_css ::
  "(node \<Rightarrow> path \<Rightarrow> os_error + string) \<Rightarrow> path \<Rightarrow> string list \<Rightarrow> node \<Rightarrow> node \<times> os_error option" where
  "build_css sass_compile cwd [] fs = (fs, None)"
| "build_css sass_compile cwd (flavour # rest) fs =
     (let target = cwd @ [flavour @ ''.css''];
          source = cwd @ [flavour @ ''.scss'']
      in if \<not> path_exists fs source then (fs, Some AssertionError)
         else (case sass_compile fs source of
                 Inl e \<Rightarrow> (fs, Some e)
               | Inr result \<Rightarrow>
                   (case open_write target result fs of
                      Inl e \<Rightarrow> (fs, Some e)
                    | Inr fs' \<Rightarrow> build_css sass_compile cwd rest fs')))"

definition prepare_data ::
  "(path list \<Rightarrow> name list \<Rightarrow> node \<Rightarrow> bool) \<Rightarrow> (node \<Rightarrow> path \<Rightarrow> os_error + string) \<Rightarrow> node
   \<Rightarrow> node \<times> (os_error + string list)" where
  "prepare_data is_outdated sass_compile fs =
     (let cwd = [''css''] in
      case lookup fs cwd of
        None \<Rightarrow> (fs, Inl FileNotFoundError)
      | Some (File m c) \<Rightarrow> (fs, Inl NotADirectoryError)
      | Some (Dir m es) \<Rightarrow>
          (let built_files = map (\<lambda>flavour. cwd @ [flavour @ ''.css'']) flavours in
           if is_outdated built_files (glob_scss (Dir m es)) fs
           then (case build_css sass_compile cwd flavours fs of
                   (fs', Some e) \<Rightarrow> (fs', Inl e)
                 | (fs', None) \<Rightarrow> (fs', Inr []))
           else (fs, Inr [])))"

text \<open>
  \<^verbatim>\<open>def check_prereqs(_options): return prepare_data()\<close>
\<close>

definition check_prereqs ::
  "(path list \<Rightarrow> name list \<Rightarrow> node \<Rightarrow> bool) \<Rightarrow> (node \<Rightarrow> path \<Rightarrow> os_error + string)
   \<Rightarrow> 'a config_scheme \<Rightarrow> node \<Rightarrow> node \<times> (os_error + string list)" where
  "check_prereqs is_outdated sass_compile options fs = prepare_data is_outdated sass_compile fs"

subsection \<open>Notions used in the proofs\<close>

text \<open>
  A successful call of \<open>copy_template_dir\<close> does the same as \<open>install\<close> with the image
  \<open>T\<close> of the template: remove the target, graft \<open>T\<close> there, set the permissions.
  \<open>template_image\<close> is that image (the template directory itself, or a new directory
  holding the matched files), \<open>None\<close> when the copy raises whatever the output directory
  holds.
\<close>

definition install :: "path \<Rightarrow> path \<Rightarrow> node \<Rightarrow> node \<Rightarrow> os_error + node" where
  "install out t T fs =
     (case (if path_exists fs (out @ t) then rmtree (out @ t) fs else Inr fs) of
        Inl e \<Rightarrow> Inl e
      | Inr fs1 \<Rightarrow>
          (case graft (out @ t) T fs1 of
             Inl e \<Rightarrow> Inl e
           | Inr fs3 \<Rightarrow>
               (case chmod out owner_rwx fs3 of
                  Inl e \<Rightarrow> Inl e
                | Inr fs4 \<Rightarrow> Inr (walk_chmod out owner_rwx fs4))))"

definition template_image ::
  "(name \<Rightarrow> string \<Rightarrow> bool) \<Rightarrow> node \<Rightarrow> path \<Rightarrow> string option \<Rightarrow> node option" where
  "template_image fnmatch pkg template pattern =
     (if pattern \<noteq> None \<and> pattern \<noteq> Some []
      then (let ms = glob_template fnmatch pkg template (the pattern) in
            if list_ex (\<lambda>(a, n). is_dir n) ms then None
            else Some (Dir default_dir_mode (foldl (\<lambda>es (a, n). AList.update a n es) [] ms)))
      else (case lookup pkg template of
              Some (Dir m es) \<Rightarrow> Some (Dir m es)
            | _ \<Rightarrow> None))"

definition files_only :: "(name \<times> node) list \<Rightarrow> bool" where
  "files_only es = (\<forall>(a, n) \<in> set es. \<not> is_dir n)"

subsection \<open>Example trees\<close>

text \<open>
  A small package (\<^verbatim>\<open>css\<close> and \<^verbatim>\<open>js\<close> templates with read-only directories, mode
  0o555), an output directory that holds the images of another module and a stale
  \<^verbatim>\<open>js\<close> directory from an earlier run, the same output directory after
  \<^verbatim>\<open>copy_template_dir("js", "out")\<close>, and an output directory that is still empty.
\<close>

definition example_pkg :: node where
  "example_pkg = Dir 493
     [(''css'', Dir 365 [(''bacteria.css'', File 292 ''b''), (''fungi.css'', File 292 ''f'')]),
      (''js'', Dir 365 [(''a.js'', File 292 ''x''), (''lib'', Dir 365 [(''l.js'', File 292 ''y'')])])]"

definition example_fs :: node where
  "example_fs = Dir 493
     [(''out'', Dir 493
        [(''smcogs'', Dir 365 [(''t.png'', File 420 ''p'')]),
         (''js'', Dir 493 [(''stale.js'', File 420 ''old'')])])]"

definition example_result :: node where
  "example_result = Dir 493
     [(''out'', Dir 448
        [(''smcogs'', Dir 448 [(''t.png'', File 420 ''p'')]),
         (''js'', Dir 448 [(''a.js'', File 292 ''x''), (''lib'', Dir 448 [(''l.js'', File 292 ''y'')])])])]"

definition example_empty :: node where
  "example_empty = Dir 493 [(''out'', Dir 493 [])]"

definition example_empty_result :: node where
  "example_empty_result = Dir 493
     [(''out'', Dir 448
        [(''js'', Dir 448 [(''a.js'', File 292 ''x''), (''lib'', Dir 448 [(''l.js'', File 292 ''y'')])])])]"

text \<open>
  A package whose stylesheets are not all built, the same package after the build, and
  stand-ins for the two collaborators of \<open>prepare_data\<close>: the stylesheets are out of date
  when one of them is missing, and every source compiles to the same text.
\<close>

definition example_css :: node where
  "example_css = Dir 493
     [(''css'', Dir 493
        [(''bacteria.scss'', File 420 ''$b''), (''fungi.scss'', File 420 ''$f''),
         (''plants.scss'', File 420 ''$p''), (''.hidden.scss'', File 420 []),
         (''fungi.css'', File 384 ''old'')])]"

definition example_css_built :: node where
  "example_css_built = Dir 493
     [(''css'', Dir 493
        [(''bacteria.scss'', File 420 ''$b''), (''fungi.scss'', File 420 ''$f''),
         (''plants.scss'', File 420 ''$p''), (''.hidden.scss'', File 420 []),
         (''fungi.css'', File 384 ''body{}''), (''bacteria.css'', File 420 ''body{}''),
         (''plants.css'', File 420 ''body{}'')])]"

definition example_is_outdated :: "path list \<Rightarrow> name list \<Rightarrow> node \<Rightarrow> bool" where
  "example_is_outdated built sources fs = list_ex (\<lambda>b. \<not> path_exists fs b) built"

definition example_compile :: "node \<Rightarrow> path \<Rightarrow> os_error + string" where
  "example_compile fs source = Inr ''body{}''"

section \<open>Lemmas\<close>

subsection \<open>Association lists\<close>

lemma map_of_map_prod: "map_of (map (map_prod id f) es) a = map_option f (map_of es a)"
  by (induction es) auto

lemma update_absent: "map_of es a = None \<Longrightarrow> AList.update a v es = es @ [(a, v)]"
  by (induction es) (auto split: if_splits)

lemma update_appended: "map_of es a = None \<Longrightarrow> AList.update a v (es @ [(a, w)]) = es @ [(a, v)]"
  by (induction es) (auto split: if_splits)

lemma delete_appended: "map_of es a = None \<Longrightarrow> AList.delete a (es @ [(a, w)]) = es"
  by (induction es) (auto split: if_splits)

lemma map_of_appended: "map_of es a = None \<Longrightarrow> map_of (es @ [(a, w)]) a = Some w"
  by (induction es) (auto split: if_splits)

lemma update_map_prod:
  "AList.update a (f v) (map (map_prod id f) es) = map (map_prod id f) (AList.update a v es)"
  by (induction es) auto

lemma delete_map_prod:
  "AList.delete a (map (map_prod id f) es) = map (map_prod id f) (AList.delete a es)"
  by (induction es) auto

subsection \<open>Setting the permissions of a whole subtree\<close>

text \<open>
  \<open>chmod_dirs\<close> is idempotent, commutes with a lookup and with the removal of an entry,
  and absorbs an earlier \<open>chmod_dirs\<close> under a graft.
\<close>

lemma chmod_dirs_idem: "chmod_dirs m (chmod_dirs m n) = chmod_dirs m n"
  by (induction n) (auto simp: map_prod_def split: prod.splits)

lemma chmod_dirs_entry_idem:
  "map_prod id (chmod_dirs m) (map_prod id (chmod_dirs m) x) = map_prod id (chmod_dirs m) x"
  by (cases x) (simp add: chmod_dirs_idem)

lemma chmod_dirs_entry_comp:
  "map_prod id (chmod_dirs m) \<circ> map_prod id (chmod_dirs m) = map_prod id (chmod_dirs m)"
  by (rule ext) (simp add: chmod_dirs_entry_idem)

lemma lookup_chmod_dirs:
  "lookup (chmod_dirs m n) p = map_option (chmod_dirs m) (lookup n p)"
proof (induction p arbitrary: n)
  case Nil
  then show ?case by simp
next
  case (Cons a q)
  then show ?case by (cases n) (auto simp: map_of_map_prod split: option.splits)
qed

lemma remove_chmod_dirs: "remove t (chmod_dirs m X) = chmod_dirs m (remove t X)"
proof (induction t X rule: remove.induct)
  case (4 a b p m' es)
  then show ?case
    by (auto simp: map_of_map_prod update_map_prod split: option.splits)
qed (auto simp: delete_map_prod)

lemma chmod_dirs_mkchain:
  "chmod_dirs m (mkchain q (chmod_dirs m T)) = chmod_dirs m (mkchain q T)"
  by (induction q) (auto simp: chmod_dirs_idem)

lemma graft_chmod_dirs:
  "map_sum id (chmod_dirs m) (graft t T (chmod_dirs m X))
   = map_sum id (chmod_dirs m) (graft t T X)"
proof (induction t T X rule: graft.induct)
  case (3 a p n m' es)
  show ?case
  proof (cases "map_of es a")
    case None
    then show ?thesis by (simp add: map_of_map_prod chmod_dirs_mkchain chmod_dirs_entry_idem)
  next
    case (Some ch)
    with 3 show ?thesis
      apply (simp add: map_of_map_prod)
      apply (cases "graft p n ch"; cases "graft p n (chmod_dirs m ch)")
         apply (auto simp: update_map_prod[symmetric] chmod_dirs_entry_idem chmod_dirs_entry_comp)
      done
  qed
qed auto

subsection \<open>Grafting where an entry was removed\<close>

text \<open>
  A graft is found again at its path; removing it and grafting the same node again gives
  the same tree, because the graft put the entry last in its directory and does so again.
\<close>

lemma lookup_mkchain: "lookup (mkchain p n) p = Some n"
  by (induction p) auto

lemma lookup_graft: "graft t T X = Inr Y \<Longrightarrow> lookup Y t = Some T"
proof (induction t T X arbitrary: Y rule: graft.induct)
  case (3 a p n m es)
  then show ?case
    by (auto simp: map_of_appended lookup_mkchain update_conv' split: option.splits sum.splits)
qed auto

lemma graft_is_dir: "graft t T X = Inr Y \<Longrightarrow> is_dir Y"
  by (induction t T X rule: graft.induct) (auto split: option.splits sum.splits)

lemma lookup_remove: "t \<noteq> [] \<Longrightarrow> lookup (remove t X) t = None"
proof (induction t X rule: remove.induct)
  case (3 a m es)
  then show ?case by (simp add: delete_conv')
next
  case (4 a b p m es)
  then show ?case by (auto simp: update_conv' split: option.splits)
qed auto

lemma graft_remove_mkchain:
  "p \<noteq> [] \<Longrightarrow> graft p n (remove p (mkchain p n)) = Inr (mkchain p n)"
proof (induction p)
  case Nil
  then show ?case by simp
next
  case (Cons a q)
  then show ?case by (cases q) auto
qed

lemma graft_remove_graft:
  "lookup X t = None \<Longrightarrow> graft t T X = Inr Y \<Longrightarrow> graft t T (remove t Y) = Inr Y"
proof (induction t T X arbitrary: Y rule: graft.induct)
  case (3 a p n m es)
  show ?case
  proof (cases "map_of es a")
    case None
    with 3 have Y: "Y = Dir m (es @ [(a, mkchain p n)])" by simp
    show ?thesis
    proof (cases p)
      case Nil
      with None Y show ?thesis by (simp add: delete_appended)
    next
      case (Cons b q)
      with None Y have "remove (a # p) Y = Dir m (es @ [(a, remove p (mkchain p n))])"
        by (simp add: map_of_appended update_appended del: map_of_append mkchain.simps)
      moreover from Cons have "graft p n (remove p (mkchain p n)) = Inr (mkchain p n)"
        by (intro graft_remove_mkchain) simp
      ultimately show ?thesis using None Y
        by (simp add: map_of_appended update_appended del: map_of_append)
    qed
  next
    case (Some ch)
    with 3(2) have lk: "lookup ch p = None" by simp
    then obtain b q where p: "p = b # q" by (cases p) auto
    from Some 3(3) obtain ch' where g: "graft p n ch = Inr ch'" and Y: "Y = Dir m (AList.update a ch' es)"
      by (auto split: sum.splits)
    from 3(1)[OF Some lk g] have "graft p n (remove p ch') = Inr ch'" .
    with Y p show ?thesis by (simp add: update_conv')
  qed
qed auto

subsection \<open>\<open>install\<close> is idempotent\<close>

text \<open>
  First for an output directory that is the root of the tree, then by induction on the
  path of the output directory: one component down, \<open>install\<close> acts on the entry of that
  name (present) or on a fresh directory appended under that name (absent). The case of
  an empty template path, where the target is the output directory itself, is apart.
\<close>

lemma chmod_walk_root:
  "is_dir Y \<Longrightarrow> walk_subdirs m (set_mode m Y) = chmod_dirs m Y"
  by (cases Y) auto

lemma install_Nil:
  "install [] t T fs =
     (case (if path_exists fs t then rmtree t fs else Inr fs) of
        Inl e \<Rightarrow> Inl e
      | Inr fs1 \<Rightarrow>
          (case graft t T fs1 of
             Inl e \<Rightarrow> Inl e
           | Inr fs3 \<Rightarrow> Inr (walk_subdirs owner_rwx (set_mode owner_rwx fs3))))"
  by (auto simp: install_def split: sum.splits)

lemma install_root_idem:
  assumes "install [] t T fs = Inr fs'" and "is_dir T"
  shows "install [] t T fs' = Inr fs'"
proof -
  let ?m = owner_rwx
  from assms(1) obtain fs1 fs2 where
    fs1: "(if path_exists fs t then rmtree t fs else Inr fs) = Inr fs1"
    and g: "graft t T fs1 = Inr fs2"
    and fs': "fs' = walk_subdirs ?m (set_mode ?m fs2)"
    by (auto simp: install_Nil split: sum.splits)
  from g have t: "t \<noteq> []" by auto
  from g have "is_dir fs2" by (rule graft_is_dir)
  then have fs'2: "fs' = chmod_dirs ?m fs2" using fs' by (simp add: chmod_walk_root)
  from fs1 t have no: "lookup fs1 t = None"
    by (auto simp: path_exists_def rmtree_def lookup_remove split: if_splits option.splits node.splits)
  from lookup_graft[OF g] have "lookup fs' t = Some (chmod_dirs ?m T)"
    by (simp add: fs'2 lookup_chmod_dirs)
  moreover from assms(2) have "is_dir (chmod_dirs ?m T)" by (cases T) auto
  ultimately have rm: "(if path_exists fs' t then rmtree t fs' else Inr fs') = Inr (chmod_dirs ?m (remove t fs2))"
    using t by (cases "chmod_dirs ?m T") (auto simp: path_exists_def rmtree_def fs'2 remove_chmod_dirs)
  have "graft t T (remove t fs2) = Inr fs2" using no g by (rule graft_remove_graft)
  with graft_chmod_dirs[of ?m t T "remove t fs2"]
  obtain W where W: "graft t T (chmod_dirs ?m (remove t fs2)) = Inr W"
    and cW: "chmod_dirs ?m W = chmod_dirs ?m fs2"
    by (cases "graft t T (chmod_dirs ?m (remove t fs2))") auto
  from W have "is_dir W" by (rule graft_is_dir)
  then have "walk_subdirs ?m (set_mode ?m W) = fs'" using cW fs'2 by (simp add: chmod_walk_root)
  with rm W show ?thesis by (simp add: install_Nil)
qed

lemma rmtree_Cons:
  "map_of es a = Some c \<Longrightarrow> p \<noteq> [] \<Longrightarrow>
   rmtree (a # p) (Dir m es) =
     (case rmtree p c of Inl e \<Rightarrow> Inl e | Inr c' \<Rightarrow> Inr (Dir m (AList.update a c' es)))"
  by (cases p) (auto simp: rmtree_def split: option.splits node.splits)

lemma install_Cons_present:
  assumes "map_of es a = Some c" and "o' @ t \<noteq> []"
  shows "install (a # o') t T (Dir m es) =
     (case install o' t T c of Inl e \<Rightarrow> Inl e | Inr c' \<Rightarrow> Inr (Dir m (AList.update a c' es)))"
  using assms
  by (auto simp: install_def path_exists_def rmtree_Cons update_conv' split: sum.splits)

lemma install_Cons_absent:
  assumes "map_of es a = None" and "o' @ t \<noteq> []"
  shows "install (a # o') t T (Dir m es) =
     (case install o' t T (Dir default_dir_mode []) of
        Inl e \<Rightarrow> Inl e
      | Inr c' \<Rightarrow> Inr (Dir m (es @ [(a, c')])))"
proof -
  from assms(2) obtain b q where p: "o' @ t = b # q" by (cases "o' @ t") auto
  have "mkchain (o' @ t) T = Dir default_dir_mode [(b, mkchain q T)]" by (simp add: p)
  then show ?thesis using assms(1) p
    by (auto simp: install_def path_exists_def map_of_appended update_appended
             simp del: map_of_append split: sum.splits)
qed

lemma install_File: "install (a # o') t T (File m c) = Inl NotADirectoryError"
  by (simp add: install_def path_exists_def)

lemma install_single_idem:
  assumes "install [a] [] T fs = Inr fs'" and "is_dir T"
  shows "install [a] [] T fs' = Inr fs'"
proof -
  obtain tm tes where T: "T = Dir tm tes" using assms(2) by (cases T) auto
  from assms(1) obtain m es where fs: "fs = Dir m es"
    by (cases fs) (auto simp: install_File)
  let ?T' = "Dir owner_rwx (map (map_prod id (chmod_dirs owner_rwx)) tes)"
  have no: "map_of (AList.delete a es) a = None" by (simp add: delete_conv')
  have "fs' = Dir m (AList.delete a es @ [(a, ?T')])"
  proof (cases "map_of es a")
    case None
    then have "AList.delete a es = es" by (simp add: delete_id map_of_eq_None_iff)
    with None assms(1) show ?thesis
      by (auto simp: install_def fs T path_exists_def map_of_appended update_appended
               simp del: map_of_append split: sum.splits)
  next
    case (Some c)
    with assms(1) no show ?thesis
      by (auto simp: install_def fs T path_exists_def rmtree_def map_of_appended update_appended
               simp del: map_of_append split: sum.splits node.splits if_splits)
  qed
  with no show ?thesis
    by (auto simp: install_def T path_exists_def rmtree_def map_of_appended update_appended
          delete_appended simp del: map_of_append split: sum.splits)
qed

lemma install_idem:
  "install out t T fs = Inr fs' \<Longrightarrow> is_dir T \<Longrightarrow> install out t T fs' = Inr fs'"
proof (induction out arbitrary: fs fs')
  case Nil
  then show ?case by (rule install_root_idem)
next
  case (Cons a o')
  from Cons.prems(1) obtain m es where fs: "fs = Dir m es"
    by (cases fs) (auto simp: install_File)
  show ?case
  proof (cases "o' @ t = []")
    case True
    with Cons.prems show ?thesis using install_single_idem by simp
  next
    case False
    show ?thesis
    proof (cases "map_of es a")
      case None
      with Cons.prems(1) False obtain c' where
        c': "install o' t T (Dir default_dir_mode []) = Inr c'" and fs': "fs' = Dir m (es @ [(a, c')])"
        by (auto simp: fs install_Cons_absent split: sum.splits)
      from Cons.IH[OF c' Cons.prems(2)] have "install o' t T c' = Inr c'" .
      moreover have "map_of (es @ [(a, c')]) a = Some c'" using None by (rule map_of_appended)
      ultimately show ?thesis using False None
        by (simp add: fs' install_Cons_present update_appended del: map_of_append)
    next
      case (Some c)
      with Cons.prems(1) False obtain c' where
        c': "install o' t T c = Inr c'" and fs': "fs' = Dir m (AList.update a c' es)"
        by (auto simp: fs install_Cons_present split: sum.splits)
      from Cons.IH[OF c' Cons.prems(2)] have "install o' t T c' = Inr c'" .
      moreover have "map_of (AList.update a c' es) a = Some c'" by (simp add: update_conv')
      ultimately show ?thesis using False
        by (simp add: fs' install_Cons_present)
    qed
  qed
qed

subsection \<open>The permissions after \<^verbatim>\<open>os.chmod\<close> and the walk\<close>

lemma lookup_chmod_dirs_mode:
  "lookup (chmod_dirs m n) p = Some (Dir m' es) \<Longrightarrow> m' = m"
proof (induction p arbitrary: n)
  case Nil
  then show ?case by (cases n) auto
next
  case (Cons a q)
  then show ?case
    by (cases n) (auto simp: map_of_map_prod split: option.splits)
qed

lemma lookup_walk_subdirs_mode:
  "lookup (walk_subdirs m (set_mode m n)) p = Some (Dir m' es) \<Longrightarrow> m' = m"
proof (cases n)
  case (File fm c)
  then show "lookup (walk_subdirs m (set_mode m n)) p = Some (Dir m' es) \<Longrightarrow> m' = m"
    by (cases p) auto
next
  case (Dir dm ds)
  assume "lookup (walk_subdirs m (set_mode m n)) p = Some (Dir m' es)"
  with Dir show "m' = m"
    by (cases p) (auto simp: map_of_map_prod split: option.splits dest: lookup_chmod_dirs_mode)
qed

lemma lookup_chmod_walk_mode:
  "chmod out m fs = Inr fs' \<Longrightarrow> lookup (walk_chmod out m fs') (out @ p) = Some (Dir m' es)
   \<Longrightarrow> m' = m"
proof (induction out arbitrary: fs fs')
  case Nil
  then show ?case using lookup_walk_subdirs_mode by auto
next
  case (Cons a o)
  then show ?case
    by (cases fs) (auto simp: update_conv' split: option.splits sum.splits)
qed

subsection \<open>The pattern branch is a graft too\<close>

text \<open>
  Copying regular files one by one into the directory that \<^verbatim>\<open>os.makedirs\<close> has just
  made gives the same tree as grafting the finished directory; a directory among the
  matches makes \<^verbatim>\<open>shutil.copytree\<close> raise \<^verbatim>\<open>FileExistsError\<close>, since the target exists.
\<close>

lemma files_only_update: "files_only es \<Longrightarrow> \<not> is_dir n \<Longrightarrow> files_only (AList.update a n es)"
  by (induction es) (auto simp: files_only_def)

lemma files_only_map_of: "files_only es \<Longrightarrow> map_of es a = Some n \<Longrightarrow> \<not> is_dir n"
  by (auto simp: files_only_def dest: map_of_SomeD)

lemma write_file_mkchain:
  "files_only es \<Longrightarrow>
   write_file (q @ [a]) fm c (mkchain q (Dir d es))
   = Inr (mkchain q (Dir d (AList.update a (File fm c) es)))"
proof (induction q)
  case Nil
  show ?case
  proof (cases "map_of es a")
    case None
    then show ?thesis by (simp add: update_absent)
  next
    case (Some ch)
    with Nil have "\<not> is_dir ch" by (rule files_only_map_of)
    with Some show ?thesis by (cases ch) auto
  qed
next
  case (Cons b q)
  then show ?case by simp
qed

lemma graft_error_indep: "graft p n X = Inl e \<Longrightarrow> graft p n' X = Inl e"
  by (induction p n X arbitrary: e rule: graft.induct) (auto split: option.splits sum.splits)

lemma graft_ok_indep: "graft p n X = Inr Y \<Longrightarrow> \<exists>Y'. graft p n' X = Inr Y'"
  using graft_error_indep[of p n' X _ n] by (cases "graft p n' X") auto

lemma write_file_graft:
  "graft p (Dir d es) X = Inr Y \<Longrightarrow> files_only es \<Longrightarrow>
   write_file (p @ [a]) fm c Y = graft p (Dir d (AList.update a (File fm c) es)) X"
proof (induction p "Dir d es" X arbitrary: Y rule: graft.induct)
  case (3 b q m xs)
  show ?case
  proof (cases "map_of xs b")
    case None
    with 3(2) have Y: "Y = Dir m (xs @ [(b, mkchain q (Dir d es))])" by simp
    with None 3(3) show ?thesis
      by (simp add: map_of_appended update_appended write_file_mkchain del: map_of_append)
  next
    case (Some ch)
    with 3(2) obtain ch' where g: "graft q (Dir d es) ch = Inr ch'"
      and Y: "Y = Dir m (AList.update b ch' xs)"
      by (auto split: sum.splits)
    from 3(1)[OF Some g 3(3)] Some Y show ?thesis
      by (simp add: update_conv' split: sum.splits)
  qed
qed auto

lemma graft_again: "graft p n X = Inr Y \<Longrightarrow> graft p n' Y = Inl FileExistsError"
proof (induction p n X arbitrary: Y rule: graft.induct)
  case (3 a p n m es)
  show ?case
  proof (cases "map_of es a")
    case None
    with 3(2) have Y: "Y = Dir m (es @ [(a, mkchain p n)])" by simp
    have "graft p n' (mkchain p n) = Inl FileExistsError" by (induction p) auto
    with None Y show ?thesis by (simp add: map_of_appended del: map_of_append)
  next
    case (Some ch)
    with 3 show ?thesis by (auto simp: update_conv' split: sum.splits)
  qed
qed auto

lemma copy_matches_graft:
  "graft p (Dir d es) X = Inr Y \<Longrightarrow> files_only es \<Longrightarrow>
   copy_matches p ms Y =
     (if list_ex (\<lambda>(a, n). is_dir n) ms then Inl FileExistsError
      else graft p (Dir d (foldl (\<lambda>es (a, n). AList.update a n es) es ms)) X)"
proof (induction ms arbitrary: es Y)
  case Nil
  then show ?case by simp
next
  case (Cons e ms)
  obtain a n where e: "e = (a, n)" by (cases e)
  show ?case
  proof (cases n)
    case (Dir m' es')
    with Cons.prems(1) show ?thesis
      by (simp add: e copytree_def graft_again)
  next
    case (File fm c)
    from lookup_graft[OF Cons.prems(1)] have isd: "path_isdir Y p" by (simp add: path_isdir_def)
    obtain Y' where Y': "graft p (Dir d (AList.update a (File fm c) es)) X = Inr Y'"
      using graft_ok_indep[OF Cons.prems(1)] by blast
    have fo: "files_only (AList.update a (File fm c) es)"
      using Cons.prems(2) by (simp add: files_only_update)
    have "copy2 a n p Y = Inr Y'"
      using write_file_graft[OF Cons.prems] Y' isd by (simp add: copy2_def File)
    with Cons.IH[OF Y' fo] show ?thesis by (simp add: e File)
  qed
qed

lemma copy_template_dir_install:
  assumes "template_image fnmatch pkg template pattern = Some T"
  shows "copy_template_dir fnmatch pkg template out pattern fs = install out template T fs"
proof (cases "pattern \<noteq> None \<and> pattern \<noteq> Some []")
  case False
  with assms show ?thesis
    by (auto simp: template_image_def copy_template_dir_def install_def copytree_def
             split: option.splits node.splits sum.splits)
next
  case True
  let ?ms = "glob_template fnmatch pkg template (the pattern)"
  from True assms have nd: "\<not> list_ex (\<lambda>(a, n). is_dir n) ?ms"
    and T: "T = Dir default_dir_mode (foldl (\<lambda>es (a, n). AList.update a n es) [] ?ms)"
    by (auto simp: template_image_def Let_def split: if_splits)
  have fo: "files_only []" by (simp add: files_only_def)
  have "(case makedirs p X of Inl e \<Rightarrow> Inl e | Inr Y \<Rightarrow> copy_matches p ?ms Y) = graft p T X" for p X
  proof (cases "makedirs p X")
    case (Inl e)
    then show ?thesis using graft_error_indep[of p _ X e T] by (simp add: makedirs_def)
  next
    case (Inr Y)
    then show ?thesis using copy_matches_graft[of p default_dir_mode "[]" X Y ?ms] nd fo
      by (simp add: makedirs_def T)
  qed
  with True show ?thesis
    by (auto simp: copy_template_dir_def install_def Let_def split: sum.splits)
qed

lemma copy_template_dir_image:
  assumes "copy_template_dir fnmatch pkg template out pattern fs = Inr fs'"
  shows "\<exists>T. template_image fnmatch pkg template pattern = Some T \<and> is_dir T"
proof (cases "pattern \<noteq> None \<and> pattern \<noteq> Some []")
  case False
  with assms show ?thesis
    by (auto simp: template_image_def copy_template_dir_def copytree_def Let_def
             split: option.splits node.splits sum.splits if_splits)
next
  case True
  let ?ms = "glob_template fnmatch pkg template (the pattern)"
  from True assms obtain X Y Z where "makedirs (out @ template) X = Inr Y"
    and "copy_matches (out @ template) ?ms Y = Inr Z"
    by (auto simp: copy_template_dir_def Let_def split: sum.splits if_splits)
  then have "\<not> list_ex (\<lambda>(a, n). is_dir n) ?ms"
    using copy_matches_graft[of "out @ template" default_dir_mode "[]" X Y ?ms]
    by (auto simp: makedirs_def files_only_def split: if_splits)
  with True show ?thesis by (simp add: template_image_def)
qed

subsection \<open>What a lookup finds after a call\<close>

lemma lookup_chmod_walk:
  "chmod out m X = Inr Y \<Longrightarrow> q \<noteq> [] \<Longrightarrow>
   lookup (walk_chmod out m Y) (out @ q) = map_option (chmod_dirs m) (lookup X (out @ q))"
proof (induction out arbitrary: X Y)
  case Nil
  then obtain b r where q: "q = b # r" by (cases q) auto
  from Nil show ?case
    by (cases X) (auto simp: q map_of_map_prod lookup_chmod_dirs split: option.splits)
next
  case (Cons a o')
  then show ?case
    by (cases X) (auto simp: update_conv' split: option.splits sum.splits)
qed

lemma lookup_chmod_walk_top:
  "chmod out m X = Inr Y \<Longrightarrow> lookup X out = Some N \<Longrightarrow> is_dir N \<Longrightarrow>
   lookup (walk_chmod out m Y) out = Some (chmod_dirs m N)"
proof (induction out arbitrary: X Y)
  case Nil
  then show ?case using chmod_walk_root[of N m] by auto
next
  case (Cons a o')
  then show ?case
    by (cases X) (auto simp: update_conv' split: option.splits sum.splits)
qed

lemma lookup_chmod_walk_dir:
  assumes "chmod out m X = Inr Y" and "lookup X (out @ q) = Some N" and "is_dir N"
  shows "lookup (walk_chmod out m Y) (out @ q) = Some (chmod_dirs m N)"
proof (cases q)
  case Nil
  with assms lookup_chmod_walk_top[of out m X Y N] show ?thesis by simp
next
  case (Cons b r)
  with assms lookup_chmod_walk[of out m X Y q] show ?thesis by simp
qed

lemma install_target:
  assumes "install out t T fs = Inr fs'" and "is_dir T"
  shows "lookup fs' (out @ t) = Some (chmod_dirs owner_rwx T)"
proof -
  from assms(1) obtain fs1 fs3 fs4 where g: "graft (out @ t) T fs1 = Inr fs3"
    and c: "chmod out owner_rwx fs3 = Inr fs4" and fs': "fs' = walk_chmod out owner_rwx fs4"
    by (auto simp: install_def split: sum.splits)
  from c lookup_graft[OF g] assms(2) show ?thesis
    unfolding fs' by (rule lookup_chmod_walk_dir)
qed

text \<open>Paths beside the target are not touched by the removal or by the graft.\<close>

lemma lookup_remove_other:
  "\<not> prefix p r \<Longrightarrow> \<not> prefix r p \<Longrightarrow> lookup (remove p X) r = lookup X r"
proof (induction p X arbitrary: r rule: remove.induct)
  case (3 a m es)
  then show ?case by (cases r) auto
next
  case (4 a b p m es)
  then show ?case by (cases r) (auto simp: update_conv' split: option.splits)
qed auto

lemma lookup_mkchain_other:
  "\<not> prefix p r \<Longrightarrow> \<not> prefix r p \<Longrightarrow> lookup (mkchain p n) r = None"
proof (induction p arbitrary: r)
  case Nil
  then show ?case by simp
next
  case (Cons a p)
  then show ?case by (cases r) auto
qed

lemma lookup_graft_other:
  "graft p n X = Inr Y \<Longrightarrow> \<not> prefix p r \<Longrightarrow> \<not> prefix r p \<Longrightarrow> lookup Y r = lookup X r"
proof (induction p n X arbitrary: r Y rule: graft.induct)
  case (3 a p n m es)
  then show ?case
    by (cases r) (auto simp: update_conv' map_add_def lookup_mkchain_other split: option.splits sum.splits)
qed auto

subsection \<open>The copy decides whether a call returns\<close>

text \<open>
  Once the target has been grafted under the output directory, \<^verbatim>\<open>os.chmod(output_dir)\<close>
  finds the output directory: a call raises in the removal or in the copy, or not at all.
\<close>

lemma chmod_mkchain: "\<exists>Z. chmod p m (mkchain (p @ t) T) = Inr Z"
  by (induction p) auto

lemma chmod_after_graft:
  "graft (out @ t) T X = Inr Y \<Longrightarrow> \<exists>Z. chmod out m Y = Inr Z"
proof (induction out arbitrary: X Y)
  case Nil
  then show ?case by simp
next
  case (Cons a o')
  from Cons.prems obtain dm es where X: "X = Dir dm es" by (cases X) auto
  show ?case
  proof (cases "map_of es a")
    case None
    with Cons.prems X have "Y = Dir dm (es @ [(a, mkchain (o' @ t) T)])" by simp
    with None chmod_mkchain[of o' m t T] show ?thesis
      by (auto simp: map_of_appended simp del: map_of_append)
  next
    case (Some ch)
    with Cons.prems X obtain ch' where g: "graft (o' @ t) T ch = Inr ch'"
      and Y: "Y = Dir dm (AList.update a ch' es)"
      by (auto split: sum.splits)
    from Cons.IH[OF g] Y show ?thesis by (auto simp: update_conv')
  qed
qed

lemma install_returns:
  assumes "(if path_exists fs (out @ t) then rmtree (out @ t) fs else Inr fs) = Inr fs1"
    and "graft (out @ t) T fs1 = Inr fs3"
  shows "\<exists>fs'. install out t T fs = Inr fs'"
  using assms chmod_after_graft[OF assms(2), of owner_rwx]
  by (auto simp: install_def)

subsection \<open>What \<open>prepare_data\<close> leaves alone\<close>

lemma lookup_File: "p \<noteq> [] \<Longrightarrow> lookup (File m c) p = None"
  by (cases p) auto

lemma lookup_write_file_other:
  "write_file b fm c X = Inr Y \<Longrightarrow> \<not> prefix p b \<Longrightarrow> lookup Y p = lookup X p"
proof (induction b fm c X arbitrary: p Y rule: write_file.induct)
  case (1 fm c m' c')
  then show ?case by (cases p) auto
next
  case (4 a q fm c m es)
  then show ?case
    by (cases p) (auto simp: update_conv' map_add_def lookup_File split: option.splits sum.splits if_splits)
qed auto

lemma build_css_frame:
  "build_css sc cwd fls fs = (fs', r) \<Longrightarrow> \<forall>fl \<in> set fls. \<not> prefix p (cwd @ [fl @ ''.css''])
   \<Longrightarrow> lookup fs' p = lookup fs p"
proof (induction fls arbitrary: fs)
  case Nil
  then show ?case by simp
next
  case (Cons fl fls)
  then show ?case
    by (auto simp: Let_def open_write_def split: if_splits sum.splits dest!: lookup_write_file_other)
qed

section \<open>Properties\<close>

text \<open>
  C9. \<^verbatim>\<open>is_enabled\<close> is a function of the two fields \<^verbatim>\<open>html_enabled\<close> and \<^verbatim>\<open>minimal\<close>
  alone: its value is \<open>html_enabled \<or> \<not> minimal\<close>, two configurations that agree on both
  fields get the same answer whatever their other fields hold, and the module is enabled
  whenever minimal mode is off, whatever \<^verbatim>\<open>html_enabled\<close> says.
\<close>

theorem is_enabled_two_fields:
  fixes options other :: "'a config_scheme"
  shows "is_enabled options = (html_enabled options \<or> \<not> minimal options)
       \<and> (html_enabled options = html_enabled other \<and> minimal options = minimal other
            \<longrightarrow> is_enabled options = is_enabled other)
       \<and> (\<not> minimal options \<longrightarrow> is_enabled options)"
  by (simp add: is_enabled_def)

theorem is_enabled_two_fields_witness:
  "is_enabled \<lparr>html_enabled = False, minimal = False, \<dots> = ''bacteria''\<rparr>
   \<and> is_enabled \<lparr>html_enabled = False, minimal = False, \<dots> = ''fungi''\<rparr>
   \<and> \<not> is_enabled \<lparr>html_enabled = False, minimal = True, \<dots> = ''bacteria''\<rparr>"
  using is_enabled_two_fields
    [of "\<lparr>html_enabled = False, minimal = False, \<dots> = ''bacteria''\<rparr>"
        "\<lparr>html_enabled = False, minimal = False, \<dots> = ''fungi''\<rparr>"]
    is_enabled_two_fields
    [of "\<lparr>html_enabled = False, minimal = True, \<dots> = ''bacteria''\<rparr>"
        "\<lparr>html_enabled = False, minimal = True, \<dots> = ''bacteria''\<rparr>"]
  by auto

text \<open>
  C10. Every call of \<^verbatim>\<open>copy_template_dir\<close> that returns has set the permissions
  \<^verbatim>\<open>S_IRUSR | S_IWUSR | S_IXUSR\<close> on the output directory and on every directory below
  it: each directory found at or under \<open>output_dir\<close> afterwards has exactly these bits.
  That reaches beyond the directory the call copied into: whatever stood under
  \<open>output_dir\<close> beside the target (neither above nor below it), another module's
  directory for one, is still there, with the bits set on it and on all its
  subdirectories (\<open>chmod_dirs\<close> leaves files as they are).
\<close>

theorem copy_template_dir_permissions:
  assumes "copy_template_dir fnmatch pkg template output_dir pattern fs = Inr fs'"
  shows "(\<forall>p m es. lookup fs' (output_dir @ p) = Some (Dir m es)
            \<longrightarrow> m = S_IRUSR OR S_IWUSR OR S_IXUSR)
       \<and> (\<forall>q n. \<not> prefix template q \<and> \<not> prefix q template
                \<and> lookup fs (output_dir @ q) = Some n
            \<longrightarrow> lookup fs' (output_dir @ q)
                = Some (chmod_dirs (S_IRUSR OR S_IWUSR OR S_IXUSR) n))"
proof -
  from assms obtain T where T: "template_image fnmatch pkg template pattern = Some T"
    using copy_template_dir_image by blast
  from assms have "install output_dir template T fs = Inr fs'"
    by (simp add: copy_template_dir_install[OF T])
  then obtain fs1 fs3 fs4 where
    r: "(if path_exists fs (output_dir @ template) then rmtree (output_dir @ template) fs
         else Inr fs) = Inr fs1"
    and g: "graft (output_dir @ template) T fs1 = Inr fs3"
    and c: "chmod output_dir owner_rwx fs3 = Inr fs4"
    and fs': "fs' = walk_chmod output_dir owner_rwx fs4"
    by (auto simp: install_def split: sum.splits)
  have modes: "m = owner_rwx" if "lookup fs' (output_dir @ p) = Some (Dir m es)" for p m es
    using c that unfolding fs' by (rule lookup_chmod_walk_mode)
  have frame: "lookup fs' (output_dir @ q) = Some (chmod_dirs owner_rwx n)"
    if q: "\<not> prefix template q" "\<not> prefix q template"
      and n: "lookup fs (output_dir @ q) = Some n" for q n
  proof -
    from q have np: "\<not> prefix (output_dir @ template) (output_dir @ q)"
      "\<not> prefix (output_dir @ q) (output_dir @ template)" by simp_all
    from r have "lookup fs1 (output_dir @ q) = lookup fs (output_dir @ q)"
      using lookup_remove_other[OF np]
      by (auto simp: rmtree_def split: if_splits option.splits node.splits)
    with lookup_graft_other[OF g np] n have "lookup fs3 (output_dir @ q) = Some n" by simp
    moreover from q have "q \<noteq> []" by auto
    ultimately show ?thesis using lookup_chmod_walk[OF c] by (simp add: fs')
  qed
  show ?thesis
  proof (intro conjI allI impI)
    fix p m es
    assume "lookup fs' (output_dir @ p) = Some (Dir m es)"
    then show "m = S_IRUSR OR S_IWUSR OR S_IXUSR"
      using modes by (simp add: owner_rwx_def)
  next
    fix q n
    assume "\<not> prefix template q \<and> \<not> prefix q template
            \<and> lookup fs (output_dir @ q) = Some n"
    then show "lookup fs' (output_dir @ q)
               = Some (chmod_dirs (S_IRUSR OR S_IWUSR OR S_IXUSR) n)"
      using frame by (simp add: owner_rwx_def)
  qed
qed

theorem copy_template_dir_permissions_witness:
  "copy_template_dir (=) example_pkg [''js''] [''out''] None example_fs = Inr example_result
   \<and> lookup example_fs [''out'', ''smcogs''] = Some (Dir 365 [(''t.png'', File 420 ''p'')])
   \<and> lookup example_result [''out'', ''smcogs'']
       = Some (Dir (S_IRUSR OR S_IWUSR OR S_IXUSR) [(''t.png'', File 420 ''p'')])
   \<and> lookup example_result [''out'', ''js'', ''lib'']
       = Some (Dir (S_IRUSR OR S_IWUSR OR S_IXUSR) [(''l.js'', File 292 ''y'')])"
proof -
  have run: "copy_template_dir (=) example_pkg [''js''] [''out''] None example_fs
             = Inr example_result"
    by code_simp
  have before: "lookup example_fs ([''out''] @ [''smcogs''])
                = Some (Dir 365 [(''t.png'', File 420 ''p'')])"
    by code_simp
  have beside: "\<not> prefix [''js''] [''smcogs''] \<and> \<not> prefix [''smcogs''] [''js'']"
    by simp
  from copy_template_dir_permissions[OF run] beside before
  have after: "lookup example_result ([''out''] @ [''smcogs''])
        = Some (chmod_dirs (S_IRUSR OR S_IWUSR OR S_IXUSR) (Dir 365 [(''t.png'', File 420 ''p'')]))"
    by blast
  have lib: "lookup example_result ([''out''] @ [''js'', ''lib''])
             = Some (Dir 448 [(''l.js'', File 292 ''y'')])"
    by code_simp
  from copy_template_dir_permissions[OF run] lib
  have "448 = S_IRUSR OR S_IWUSR OR S_IXUSR" by blast
  with run before after lib show ?thesis by simp
qed

text \<open>
  C4. Calling \<^verbatim>\<open>copy_template_dir\<close> again after a call that returned changes nothing:
  the second call returns the very same file system, so the same files under the same
  names and none more. And the target directory is replaced, not merged: what it holds
  after a call is the same from whatever state the call started, so nothing that an
  earlier run left in it survives.
\<close>

theorem copy_template_dir_idempotent:
  assumes "copy_template_dir fnmatch pkg template output_dir pattern fs = Inr fs'"
  shows "copy_template_dir fnmatch pkg template output_dir pattern fs' = Inr fs'
       \<and> (\<forall>gs gs'. copy_template_dir fnmatch pkg template output_dir pattern gs = Inr gs'
              \<longrightarrow> lookup gs' (output_dir @ template) = lookup fs' (output_dir @ template))"
proof -
  from assms obtain T where T: "template_image fnmatch pkg template pattern = Some T"
    and d: "is_dir T"
    using copy_template_dir_image by blast
  have eq: "copy_template_dir fnmatch pkg template output_dir pattern X
            = install output_dir template T X" for X
    using T by (rule copy_template_dir_install)
  from assms have i: "install output_dir template T fs = Inr fs'" by (simp add: eq)
  have again: "install output_dir template T fs' = Inr fs'" using i d by (rule install_idem)
  have same: "lookup gs' (output_dir @ template) = lookup fs' (output_dir @ template)"
    if "install output_dir template T gs = Inr gs'" for gs gs'
    using install_target[OF that d] install_target[OF i d] by simp
  show ?thesis
  proof (intro conjI allI impI)
    show "copy_template_dir fnmatch pkg template output_dir pattern fs' = Inr fs'"
      using again by (simp only: eq)
  next
    fix gs gs'
    assume "copy_template_dir fnmatch pkg template output_dir pattern gs = Inr gs'"
    then have "install output_dir template T gs = Inr gs'" by (simp only: eq)
    then show "lookup gs' (output_dir @ template) = lookup fs' (output_dir @ template)"
      by (rule same)
  qed
qed

theorem copy_template_dir_idempotent_witness:
  "copy_template_dir (=) example_pkg [''js''] [''out''] None example_fs = Inr example_result
   \<and> copy_template_dir (=) example_pkg [''js''] [''out''] None example_result = Inr example_result
   \<and> lookup example_fs [''out'', ''js'', ''stale.js''] = Some (File 420 ''old'')
   \<and> lookup example_result [''out'', ''js'', ''stale.js''] = None
   \<and> copy_template_dir (=) example_pkg [''js''] [''out''] None example_empty
       = Inr example_empty_result
   \<and> lookup example_empty_result [''out'', ''js''] = lookup example_result [''out'', ''js'']"
proof -
  have run: "copy_template_dir (=) example_pkg [''js''] [''out''] None example_fs
             = Inr example_result"
    by code_simp
  have other: "copy_template_dir (=) example_pkg [''js''] [''out''] None example_empty
               = Inr example_empty_result"
    by code_simp
  have stale: "lookup example_fs [''out'', ''js'', ''stale.js''] = Some (File 420 ''old'')"
    "lookup example_result [''out'', ''js'', ''stale.js''] = None"
    by code_simp+
  from copy_template_dir_idempotent[OF run] other
  have "copy_template_dir (=) example_pkg [''js''] [''out''] None example_result
        = Inr example_result"
    and "lookup example_empty_result ([''out''] @ [''js''])
         = lookup example_result ([''out''] @ [''js''])"
    by blast+
  with run other stale show ?thesis by simp
qed

text \<open>
  C6, as amended. \<^verbatim>\<open>check_prereqs\<close> is not free of side effects for every configuration:
  it runs \<^verbatim>\<open>prepare_data\<close>, which rebuilds the stylesheets when they are out of date.
  What holds is this. Whenever it returns, the list of errors it returns is empty. It
  changes the file system only if the \<^verbatim>\<open>css\<close> directory of the package exists and
  \<^verbatim>\<open>path.is_outdated\<close> reports the built stylesheets out of date. And whatever it does,
  it writes nothing but \<^verbatim>\<open>css/bacteria.css\<close>, \<^verbatim>\<open>css/fungi.css\<close> and
  \<^verbatim>\<open>css/plants.css\<close>: a lookup of any path that is not one of these three or a directory
  above them gives the same answer before and after.
\<close>

theorem check_prereqs_effect:
  assumes "check_prereqs is_outdated sass_compile options fs = (fs', r)"
  shows "(\<forall>errs. r = Inr errs \<longrightarrow> errs = [])
       \<and> (fs' \<noteq> fs \<longrightarrow>
            (\<exists>m es. lookup fs [''css''] = Some (Dir m es)
               \<and> is_outdated (map (\<lambda>flavour. [''css'', flavour @ ''.css'']) flavours)
                    (glob_scss (Dir m es)) fs))
       \<and> (\<forall>p. (\<forall>flavour \<in> set flavours. \<not> prefix p [''css'', flavour @ ''.css''])
            \<longrightarrow> lookup fs' p = lookup fs p)"
proof (intro conjI allI impI)
  fix errs assume "r = Inr errs"
  with assms show "errs = []"
    by (auto simp: check_prereqs_def prepare_data_def Let_def
             split: option.splits node.splits if_splits prod.splits)
next
  assume "fs' \<noteq> fs"
  with assms show "\<exists>m es. lookup fs [''css''] = Some (Dir m es)
               \<and> is_outdated (map (\<lambda>flavour. [''css'', flavour @ ''.css'']) flavours)
                    (glob_scss (Dir m es)) fs"
    by (auto simp: check_prereqs_def prepare_data_def Let_def
             split: option.splits node.splits if_splits prod.splits)
next
  fix p assume p: "\<forall>flavour \<in> set flavours. \<not> prefix p [''css'', flavour @ ''.css'']"
  then have p': "\<forall>fl \<in> set flavours. \<not> prefix p ([''css''] @ [fl @ ''.css''])" by simp
  from assms show "lookup fs' p = lookup fs p"
    using build_css_frame[OF _ p', of sass_compile fs]
    by (auto simp: check_prereqs_def prepare_data_def Let_def
             split: option.splits node.splits if_splits prod.splits)
qed

theorem check_prereqs_effect_witness:
  "check_prereqs example_is_outdated example_compile \<lparr>html_enabled = True, minimal = False\<rparr>
     example_css = (example_css_built, Inr [])
   \<and> example_css_built \<noteq> example_css
   \<and> example_is_outdated
        [[''css'', ''bacteria.css''], [''css'', ''fungi.css''], [''css'', ''plants.css'']]
        [''bacteria.scss'', ''fungi.scss'', ''plants.scss''] example_css
   \<and> lookup example_css_built [''css'', ''bacteria.scss'']
       = lookup example_css [''css'', ''bacteria.scss'']"
proof -
  have run: "check_prereqs example_is_outdated example_compile
               \<lparr>html_enabled = True, minimal = False\<rparr> example_css
             = (example_css_built, Inr [])"
    by code_simp
  have changed: "example_css_built \<noteq> example_css"
    by code_simp
  have other: "\<forall>flavour \<in> set flavours.
                 \<not> prefix [''css'', ''bacteria.scss''] [''css'', flavour @ ''.css'']"
    by (simp add: flavours_def)
  from check_prereqs_effect[OF run] changed other
  have out: "\<exists>m es. lookup example_css [''css''] = Some (Dir m es)
               \<and> example_is_outdated (map (\<lambda>flavour. [''css'', flavour @ ''.css'']) flavours)
                    (glob_scss (Dir m es)) example_css"
    and same: "lookup example_css_built [''css'', ''bacteria.scss'']
               = lookup example_css [''css'', ''bacteria.scss'']"
    by blast+
  have css: "lookup example_css [''css''] = Some (Dir 493
        [(''bacteria.scss'', File 420 ''$b''), (''fungi.scss'', File 420 ''$f''),
         (''plants.scss'', File 420 ''$p''), (''.hidden.scss'', File 420 []),
         (''fungi.css'', File 384 ''old'')])"
    by code_simp
  have sources: "glob_scss (Dir 493
        [(''bacteria.scss'', File 420 ''$b''), (''fungi.scss'', File 420 ''$f''),
         (''plants.scss'', File 420 ''$p''), (''.hidden.scss'', File 420 []),
         (''fungi.css'', File 384 ''old'')])
      = [''bacteria.scss'', ''fungi.scss'', ''plants.scss'']"
    by code_simp
  have built: "map (\<lambda>flavour. [''css'', flavour @ ''.css'']) flavours
      = [[''css'', ''bacteria.css''], [''css'', ''fungi.css''], [''css'', ''plants.css'']]"
    by code_simp
  from out obtain m es where "lookup example_css [''css''] = Some (Dir m es)"
    and "example_is_outdated (map (\<lambda>flavour. [''css'', flavour @ ''.css'']) flavours)
           (glob_scss (Dir m es)) example_css"
    by blast
  with css sources built have "example_is_outdated
        [[''css'', ''bacteria.css''], [''css'', ''fungi.css''], [''css'', ''plants.css'']]
        [''bacteria.scss'', ''fungi.scss'', ''plants.scss''] example_css"
    by simp
  with run changed same show ?thesis by simp
qed

theorem check_prereqs_writes_counterexample:
  "check_prereqs example_is_outdated example_compile \<lparr>html_enabled = True, minimal = False\<rparr>
     example_css = (example_css_built, Inr [])
   \<and> lookup example_css [''css'', ''bacteria.css''] = None
   \<and> lookup example_css_built [''css'', ''bacteria.css''] = Some (File 420 ''body{}'')"
  by code_simp

end
